theory Spec2Isabelle
  imports Main "HOL-Library.Word"
begin

section \<open>Python values and exceptions\<close>

text \<open>
  The counter service is one Python module, \<^verbatim>\<open>app/counter_service.py\<close>. Its handlers
  call into \<^verbatim>\<open>pathlib\<close>, \<^verbatim>\<open>json\<close>, the builtin \<^verbatim>\<open>int\<close>, the filesystem and
  \<^verbatim>\<open>fcntl.flock\<close>. Those are modelled below as CPython documents them, on the inputs the
  module can hand them; the four functions of the module itself
  (\<^verbatim>\<open>_read_counter\<close>, \<^verbatim>\<open>_write_counter\<close>, \<^verbatim>\<open>_exclusive_file_lock\<close>, \<^verbatim>\<open>index\<close>) follow
  the source line by line. Names lose their leading underscore.

  Exceptions are values: every function that can raise returns \<open>pyexc + 'a\<close>, with
  \<open>Inl\<close> the raised exception. All of them are subclasses of \<^verbatim>\<open>Exception\<close>.
\<close>

datatype pyexc =
    ValueError
  | JSONDecodeError
  | TypeError
  | AttributeError
  | OverflowError
  | RecursionError
  | FileNotFoundError
  | FileExistsError
  | IsADirectoryError
  | NotADirectoryError

text \<open>
  A Python \<^verbatim>\<open>float\<close> is an IEEE double: \<open>Finite m e\<close> is the number \<open>m * 2 ^ e\<close>,
  exactly; the other two constructors are the infinities (the flag is the sign bit) and
  NaN. Only conversion to \<^verbatim>\<open>int\<close> is ever applied to a float here, never arithmetic.
\<close>

datatype pyfloat = Finite int int | Infinity bool | NaN

text \<open>
  What \<^verbatim>\<open>json.load\<close> can return. A \<^verbatim>\<open>dict\<close> is kept as the list of its pairs in
  document order; a later pair with the same key wins, as in \<^verbatim>\<open>dict(pairs)\<close>.
  A \<^verbatim>\<open>str\<close> is a \<open>string\<close>; text outside ASCII is carried as its UTF-8 bytes.
\<close>

datatype pyval =
    PNone
  | PBool bool
  | PInt int
  | PFloat pyfloat
  | PStr string
  | PList "pyval list"
  | PDict "(string \<times> pyval) list"

definition bind_exc :: "pyexc + 'a \<Rightarrow> ('a \<Rightarrow> pyexc + 'b) \<Rightarrow> pyexc + 'b" where
  "bind_exc r f = (case r of Inl e \<Rightarrow> Inl e | Inr x \<Rightarrow> f x)"

section \<open>The builtin \<^verbatim>\<open>int\<close>\<close>

definition is_digit :: "char \<Rightarrow> bool" where
  "is_digit c = (48 \<le> (of_char c :: nat) \<and> (of_char c :: nat) \<le> 57)"

definition digit_val :: "char \<Rightarrow> int" where
  "digit_val c = of_char c - 48"

text \<open>The value of a string of decimal digits, most significant first.\<close>

definition digits_val :: "string \<Rightarrow> int" where
  "digits_val ds = foldl (\<lambda>acc c. 10 * acc + digit_val c) 0 ds"

text \<open>
  \<^verbatim>\<open>sys.int_info.default_max_str_digits\<close>: since CPython 3.11 (and the security releases
  of 3.7 to 3.10) a conversion between \<^verbatim>\<open>int\<close> and a decimal \<^verbatim>\<open>str\<close> of more digits
  raises \<^verbatim>\<open>ValueError\<close>.
\<close>

definition max_str_digits :: nat where
  "max_str_digits = 4300"

text \<open>The whitespace \<^verbatim>\<open>int\<close> strips from an ASCII string: space, \<^verbatim>\<open>\t \n \v \f \r\<close>.\<close>

definition is_space :: "char \<Rightarrow> bool" where
  "is_space c = (c = CHR '' '' \<or> (9 \<le> (of_char c :: nat) \<and> (of_char c :: nat) \<le> 13))"

definition strip :: "string \<Rightarrow> string" where
  "strip s = rev (dropWhile is_space (rev (dropWhile is_space s)))"

text \<open>
  Digit groups of an integer literal: digits, with single underscores allowed between
  two digits. \<open>int_digits after_digit s\<close> returns the digits without the underscores.
\<close>

fun int_digits :: "bool \<Rightarrow> string \<Rightarrow> string option" where
  "int_digits after_digit [] = (if after_digit then Some [] else None)"
| "int_digits after_digit (c # cs) =
     (if is_digit c then map_option ((#) c) (int_digits True cs)
      else if c = CHR ''_'' \<and> after_digit \<and> cs \<noteq> [] then int_digits False cs
      else None)"

text \<open>\<^verbatim>\<open>int(s)\<close> for a \<^verbatim>\<open>str\<close>, base 10.\<close>

definition int_of_str :: "string \<Rightarrow> pyexc + int" where
  "int_of_str s =
     (let t = strip s;
          neg = (t \<noteq> [] \<and> hd t = CHR ''-'');
          u = (if t \<noteq> [] \<and> (hd t = CHR ''-'' \<or> hd t = CHR ''+'') then tl t else t)
      in case int_digits False u of
           None \<Rightarrow> Inl ValueError
         | Some ds \<Rightarrow>
             if max_str_digits < length ds then Inl ValueError
             else Inr (if neg then - digits_val ds else digits_val ds))"

text \<open>\<^verbatim>\<open>int(x)\<close> for a float: truncation towards zero.\<close>

definition int_of_float :: "pyfloat \<Rightarrow> pyexc + int" where
  "int_of_float x =
     (case x of
        NaN \<Rightarrow> Inl ValueError
      | Infinity _ \<Rightarrow> Inl OverflowError
      | Finite m e \<Rightarrow>
          Inr (if 0 \<le> e then m * 2 ^ nat e
               else sgn m * (\<bar>m\<bar> div 2 ^ nat (- e))))"

text \<open>\<^verbatim>\<open>int(x)\<close> for whatever \<^verbatim>\<open>json.load\<close> produced.\<close>

definition py_int :: "pyval \<Rightarrow> pyexc + int" where
  "py_int x =
     (case x of
        PNone \<Rightarrow> Inl TypeError
      | PBool b \<Rightarrow> Inr (if b then 1 else 0)
      | PInt n \<Rightarrow> Inr n
      | PFloat f \<Rightarrow> int_of_float f
      | PStr s \<Rightarrow> int_of_str s
      | PList _ \<Rightarrow> Inl TypeError
      | PDict _ \<Rightarrow> Inl TypeError)"

section \<open>The \<^verbatim>\<open>json\<close> module\<close>

subsection \<open>Decimal literals to doubles\<close>

text \<open>
  \<^verbatim>\<open>float(s)\<close> of a decimal literal is the double nearest to its value, ties to the even
  mantissa; a value beyond the largest double becomes an infinity. \<open>bitlen n\<close> is
  \<^verbatim>\<open>n.bit_length()\<close>.
\<close>

function bitlen :: "int \<Rightarrow> int" where
  "bitlen n = (if n \<le> 0 then 0 else 1 + bitlen (n div 2))"
  by pat_completeness auto
termination
  by (relation "measure nat") auto

declare bitlen.simps [simp del]

text \<open>The integer nearest to \<open>num / den\<close>, ties to even.\<close>

definition round_half_even :: "int \<Rightarrow> int \<Rightarrow> int" where
  "round_half_even num den =
     (let q = num div den; r = num mod den
      in if 2 * r < den then q
         else if den < 2 * r then q + 1
         else if even q then q else q + 1)"

text \<open>The fraction \<open>(num / den) / 2 ^ e\<close>, as a pair.\<close>

definition scale2 :: "int \<Rightarrow> int \<Rightarrow> int \<Rightarrow> int \<times> int" where
  "scale2 num den e =
     (if 0 \<le> e then (num, den * 2 ^ nat e) else (num * 2 ^ nat (- e), den))"

text \<open>
  \<open>float_of_decimal neg n x\<close> is the double of the literal whose digits (integer and
  fraction part together) have the value \<open>n\<close> and whose decimal exponent is \<open>x\<close>: the
  number \<open>n * 10 ^ x\<close>, negated when \<open>neg\<close>. Doubles have 53 bits of mantissa, and exponents
  \<open>e\<close> of the mantissa's last bit between \<open>-1074\<close> and \<open>971\<close>.
\<close>

definition float_of_decimal :: "bool \<Rightarrow> int \<Rightarrow> int \<Rightarrow> pyfloat" where
  "float_of_decimal neg n x =
     (if n \<le> 0 then Finite 0 0
      else
        let num = (if 0 \<le> x then n * 10 ^ nat x else n);
            den = (if 0 \<le> x then 1 else 10 ^ nat (- x));
            e1 = bitlen num - bitlen den - 53;
            e2 = (if snd (scale2 num den e1) * 2 ^ 53 \<le> fst (scale2 num den e1)
                  then e1 + 1 else e1);
            e3 = max e2 (- 1074);
            m = round_half_even (fst (scale2 num den e3)) (snd (scale2 num den e3));
            m' = (if m = 2 ^ 53 then 2 ^ 52 else m);
            e' = (if m = 2 ^ 53 then e3 + 1 else e3)
        in if 971 < e' then Infinity neg
           else Finite (if neg then - m' else m') e')"

subsection \<open>The decoder\<close>

text \<open>The whitespace of a JSON document: space, tab, line feed, carriage return.\<close>

definition is_ws :: "char \<Rightarrow> bool" where
  "is_ws c = (c = CHR '' '' \<or> c = CHR 0x09 \<or> c = CHR 0x0A \<or> c = CHR 0x0D)"

definition skip_ws :: "string \<Rightarrow> string" where
  "skip_ws s = dropWhile is_ws s"

definition hex_val :: "char \<Rightarrow> nat option" where
  "hex_val c =
     (let n = (of_char c :: nat)
      in if 48 \<le> n \<and> n \<le> 57 then Some (n - 48)
         else if 65 \<le> n \<and> n \<le> 70 then Some (n - 55)
         else if 97 \<le> n \<and> n \<le> 102 then Some (n - 87)
         else None)"

text \<open>The UTF-8 bytes of a code point of the basic plane (what \<^verbatim>\<open>\uXXXX\<close> names).\<close>

definition utf8 :: "nat \<Rightarrow> string" where
  "utf8 n =
     (if n < 128 then [char_of n]
      else if n < 2048 then [char_of (192 + n div 64), char_of (128 + n mod 64)]
      else [char_of (224 + n div 4096), char_of (128 + (n div 64) mod 64),
            char_of (128 + n mod 64)])"

text \<open>The character a one-letter escape stands for.\<close>

definition unescape :: "char \<Rightarrow> char option" where
  "unescape c =
     (if c = CHR 0x22 then Some (CHR 0x22)
      else if c = CHR 0x5C then Some (CHR 0x5C)
      else if c = CHR ''/'' then Some CHR ''/''
      else if c = CHR ''b'' then Some (CHR 0x08)
      else if c = CHR ''f'' then Some (CHR 0x0C)
      else if c = CHR ''n'' then Some (CHR 0x0A)
      else if c = CHR ''r'' then Some (CHR 0x0D)
      else if c = CHR ''t'' then Some (CHR 0x09)
      else None)"

text \<open>
  \<^verbatim>\<open>scanstring\<close>, strict mode, on the text after the opening quote: the string's content
  and the text after the closing quote, or \<open>None\<close> where the decoder raises (no closing
  quote, a control character, a bad escape).
\<close>

fun scanstring :: "string \<Rightarrow> (string \<times> string) option" where
  "scanstring [] = None"
| "scanstring (c # cs) =
     (if c = CHR 0x22 then Some ([], cs)
      else if c = CHR 0x5C then
        (case cs of
           [] \<Rightarrow> None
         | e # r \<Rightarrow>
             if e = CHR ''u'' then
               (case r of
                  h1 # h2 # h3 # h4 # r' \<Rightarrow>
                    (case (hex_val h1, hex_val h2, hex_val h3, hex_val h4) of
                       (Some a, Some b, Some c, Some d) \<Rightarrow>
                         map_option (apfst ((@) (utf8 (4096 * a + 256 * b + 16 * c + d))))
                           (scanstring r')
                     | _ \<Rightarrow> None)
                | _ \<Rightarrow> None)
             else
               (case unescape e of
                  None \<Rightarrow> None
                | Some x \<Rightarrow> map_option (apfst ((#) x)) (scanstring r)))
      else if (of_char c :: nat) < 32 then None
      else map_option (apfst ((#) c)) (scanstring cs))"

text \<open>
  A number at the head of the text, by the decoder's pattern
  \<^verbatim>\<open>(-?(?:0|[1-9]\d*))(\.\d+)?([eE][-+]?\d+)?\<close>. The three parts are cut off one after
  the other; a part that does not match is left in the rest.
\<close>

definition cut_int :: "string \<Rightarrow> (bool \<times> string \<times> string) option" where
  "cut_int s =
     (let neg = (s \<noteq> [] \<and> hd s = CHR ''-'');
          t = (if neg then tl s else s)
      in case t of
           [] \<Rightarrow> None
         | d # r \<Rightarrow>
             if \<not> is_digit d then None
             else if d = CHR ''0'' then Some (neg, [d], r)
             else Some (neg, d # takeWhile is_digit r, dropWhile is_digit r))"

definition cut_frac :: "string \<Rightarrow> string option \<times> string" where
  "cut_frac s =
     (case s of
        c # d # r \<Rightarrow>
          if c = CHR ''.'' \<and> is_digit d
          then (Some (d # takeWhile is_digit r), dropWhile is_digit r)
          else (None, s)
      | _ \<Rightarrow> (None, s))"

definition cut_exp :: "string \<Rightarrow> int option \<times> string" where
  "cut_exp s =
     (case s of
        [] \<Rightarrow> (None, s)
      | c # r \<Rightarrow>
          if c = CHR ''e'' \<or> c = CHR ''E'' then
            (let sgn_given = (r \<noteq> [] \<and> (hd r = CHR ''-'' \<or> hd r = CHR ''+''));
                 ds = (if sgn_given then tl r else r)
             in if ds \<noteq> [] \<and> is_digit (hd ds)
                then (Some (if r \<noteq> [] \<and> hd r = CHR ''-''
                            then - digits_val (takeWhile is_digit ds)
                            else digits_val (takeWhile is_digit ds)),
                      dropWhile is_digit ds)
                else (None, s))
          else (None, s))"

text \<open>
  \<open>None\<close> when no number starts here. With a fraction or an exponent the literal is a
  float; without, it goes through \<^verbatim>\<open>int\<close>, which refuses more than \<open>max_str_digits\<close>.
\<close>

definition scan_number :: "string \<Rightarrow> (pyexc + pyval \<times> string) option" where
  "scan_number s =
     (case cut_int s of
        None \<Rightarrow> None
      | Some (neg, ip, s1) \<Rightarrow>
          (case cut_frac s1 of
             (fp, s2) \<Rightarrow>
               (case cut_exp s2 of
                  (ex, s3) \<Rightarrow>
                    if fp = None \<and> ex = None then
                      Some (if max_str_digits < length ip then Inl ValueError
                            else Inr (PInt (if neg then - digits_val ip else digits_val ip), s3))
                    else
                      let fd = (case fp of None \<Rightarrow> [] | Some ds \<Rightarrow> ds);
                          x = (case ex of None \<Rightarrow> 0 | Some k \<Rightarrow> k)
                      in Some (Inr (PFloat (float_of_decimal neg (digits_val (ip @ fd))
                                              (x - int (length fd))), s3)))))"

definition starts_with :: "string \<Rightarrow> string \<Rightarrow> bool" where
  "starts_with s pre = (take (length pre) s = pre)"

text \<open>
  \<^verbatim>\<open>scan_once\<close>, \<^verbatim>\<open>JSONObject\<close> and \<^verbatim>\<open>JSONArray\<close>. Each takes the text from its
  position on and returns the value with the text left after it. The first argument
  bounds the number of calls, so that the three are total; \<open>json_loads\<close> below hands in
  more than any text of that length can use.

  \<open>parse_members\<close> starts at a key's opening quote, \<open>parse_elements\<close> at an element.
\<close>

fun parse_value :: "nat \<Rightarrow> string \<Rightarrow> pyexc + pyval \<times> string"
  and parse_members :: "nat \<Rightarrow> (string \<times> pyval) list \<Rightarrow> string
                          \<Rightarrow> pyexc + pyval \<times> string"
  and parse_elements :: "nat \<Rightarrow> pyval list \<Rightarrow> string \<Rightarrow> pyexc + pyval \<times> string"
where
  "parse_value 0 s = Inl RecursionError"
| "parse_value (Suc k) s =
     (case s of
        [] \<Rightarrow> Inl JSONDecodeError
      | c # r \<Rightarrow>
          if c = CHR 0x22 then
            (case scanstring r of
               None \<Rightarrow> Inl JSONDecodeError
             | Some (str, rest) \<Rightarrow> Inr (PStr str, rest))
          else if c = CHR ''{'' then
            (let r1 = skip_ws r
             in if starts_with r1 ''}'' then Inr (PDict [], tl r1)
                else if starts_with r1 [CHR 0x22] then parse_members k [] (tl r1)
                else Inl JSONDecodeError)
          else if c = CHR ''['' then
            (let r1 = skip_ws r
             in if starts_with r1 '']'' then Inr (PList [], tl r1)
                else parse_elements k [] r1)
          else if starts_with s ''null'' then Inr (PNone, drop 4 s)
          else if starts_with s ''true'' then Inr (PBool True, drop 4 s)
          else if starts_with s ''false'' then Inr (PBool False, drop 5 s)
          else
            (case scan_number s of
               Some res \<Rightarrow> res
             | None \<Rightarrow>
                 if starts_with s ''NaN'' then Inr (PFloat NaN, drop 3 s)
                 else if starts_with s ''Infinity'' then Inr (PFloat (Infinity False), drop 8 s)
                 else if starts_with s ''-Infinity'' then Inr (PFloat (Infinity True), drop 9 s)
                 else Inl JSONDecodeError))"
| "parse_members 0 acc s = Inl RecursionError"
| "parse_members (Suc k) acc s =
     (case scanstring s of
        None \<Rightarrow> Inl JSONDecodeError
      | Some (key, r) \<Rightarrow>
          (let r1 = skip_ws r
           in if \<not> starts_with r1 '':'' then Inl JSONDecodeError
              else
                (case parse_value k (skip_ws (tl r1)) of
                   Inl e \<Rightarrow> Inl e
                 | Inr (v, r2) \<Rightarrow>
                     (let r3 = skip_ws r2
                      in if starts_with r3 ''}'' then Inr (PDict (acc @ [(key, v)]), tl r3)
                         else if \<not> starts_with r3 '','' then Inl JSONDecodeError
                         else
                           (let r4 = skip_ws (tl r3)
                            in if starts_with r4 [CHR 0x22]
                               then parse_members k (acc @ [(key, v)]) (tl r4)
                               else Inl JSONDecodeError)))))"
| "parse_elements 0 acc s = Inl RecursionError"
| "parse_elements (Suc k) acc s =
     (case parse_value k s of
        Inl e \<Rightarrow> Inl e
      | Inr (v, r) \<Rightarrow>
          (let r1 = skip_ws r
           in if starts_with r1 '']'' then Inr (PList (acc @ [v]), tl r1)
              else if \<not> starts_with r1 '','' then Inl JSONDecodeError
              else parse_elements k (acc @ [v]) (skip_ws (tl r1))))"

text \<open>
  \<^verbatim>\<open>json.loads\<close>: one value, whitespace around it, nothing after it.
  \<^verbatim>\<open>json.load(fp)\<close> is \<^verbatim>\<open>json.loads(fp.read())\<close>.
\<close>

definition json_loads :: "string \<Rightarrow> pyexc + pyval" where
  "json_loads s =
     (case parse_value (Suc (2 * length s)) (skip_ws s) of
        Inl e \<Rightarrow> Inl e
      | Inr (v, rest) \<Rightarrow> if skip_ws rest = [] then Inr v else Inl JSONDecodeError)"

text \<open>\<^verbatim>\<open>data.get(key, default)\<close>: only a \<^verbatim>\<open>dict\<close> has the method.\<close>

definition py_get :: "pyval \<Rightarrow> string \<Rightarrow> pyval \<Rightarrow> pyexc + pyval" where
  "py_get data key dflt =
     (case data of
        PDict kvs \<Rightarrow> (case map_of (rev kvs) key of None \<Rightarrow> Inr dflt | Some v \<Rightarrow> Inr v)
      | _ \<Rightarrow> Inl AttributeError)"

subsection \<open>The encoder\<close>

text \<open>\<^verbatim>\<open>str(n)\<close> of an \<^verbatim>\<open>int\<close>, before the limit on digits is applied.\<close>

definition digit_char :: "nat \<Rightarrow> char" where
  "digit_char d = ''0123456789'' ! d"

fun nat_digits :: "nat \<Rightarrow> string" where
  "nat_digits n =
     (if n < 10 then [digit_char n]
      else nat_digits (n div 10) @ [digit_char (n mod 10)])"

declare nat_digits.simps [simp del]

definition int_digits_str :: "int \<Rightarrow> string" where
  "int_digits_str v = (if v < 0 then CHR ''-'' # nat_digits (nat (- v)) else nat_digits (nat v))"

text \<open>
  \<^verbatim>\<open>json.dump({"counter": value}, file)\<close> writes the chunks
  \<^verbatim>\<open>{\<close>, \<^verbatim>\<open>"counter"\<close>, \<^verbatim>\<open>: \<close>, \<^verbatim>\<open>str(value)\<close>, \<^verbatim>\<open>}\<close> one after the other. The fourth
  is computed only after the first three are written, and raises when \<open>value\<close> has more
  than \<open>max_str_digits\<close> digits. The result is the text written and the exception, if any.
\<close>

definition json_dump_counter :: "int \<Rightarrow> string \<times> pyexc option" where
  \<open>json_dump_counter v =
     (if max_str_digits < length (nat_digits (nat \<bar>v\<bar>))
      then (''{"counter": '', Some ValueError)
      else (''{"counter": '' @ int_digits_str v @ ''}'', None))\<close>


section \<open>Paths\<close>

text \<open>
  A \<^verbatim>\<open>pathlib.PurePosixPath\<close>: the root (\<^verbatim>\<open>/\<close>, \<^verbatim>\<open>//\<close> or empty) and the components
  after it. \<open>Path_of\<close> is the constructor \<^verbatim>\<open>Path(s)\<close>, which drops empty components
  and \<^verbatim>\<open>.\<close> components.
\<close>

datatype path = Path (root: string) (comps: "string list")

fun split_sep :: "string \<Rightarrow> string list" where
  "split_sep [] = [[]]"
| "split_sep (c # cs) =
     (if c = CHR ''/'' then [] # split_sep cs
      else (case split_sep cs of
              [] \<Rightarrow> [[c]]
            | x # xs \<Rightarrow> (c # x) # xs))"

definition Path_of :: "string \<Rightarrow> path" where
  "Path_of s =
     (let rel = dropWhile (\<lambda>c. c = CHR ''/'') s;
          lead = length s - length rel
      in Path (if lead = 0 then [] else if lead = 2 then ''//'' else ''/'')
              (filter (\<lambda>x. x \<noteq> [] \<and> x \<noteq> ''.'') (split_sep rel)))"

definition name :: "path \<Rightarrow> string" where
  "name p = (if comps p = [] then [] else last (comps p))"

definition parent :: "path \<Rightarrow> path" where
  "parent p = (if comps p = [] then p else Path (root p) (butlast (comps p)))"

text \<open>\<^verbatim>\<open>s.rfind(c)\<close>: the index of the last \<open>c\<close> in \<open>s\<close>, or \<open>-1\<close>.\<close>

definition rfind :: "char \<Rightarrow> string \<Rightarrow> int" where
  "rfind c s =
     (if c \<in> set s then int (length s) - 1 - int (length (takeWhile (\<lambda>x. x \<noteq> c) (rev s)))
      else - 1)"

definition suffix :: "path \<Rightarrow> string" where
  "suffix p =
     (let nm = name p; i = rfind CHR ''.'' nm
      in if 0 < i \<and> i < int (length nm) - 1 then drop (nat i) nm else [])"


text \<open>\<^verbatim>\<open>p.with_suffix(sfx)\<close>, with its three \<^verbatim>\<open>ValueError\<close>s.\<close>

definition with_suffix :: "path \<Rightarrow> string \<Rightarrow> pyexc + path" where
  "with_suffix p sfx =
     (if CHR ''/'' \<in> set sfx then Inl ValueError
      else if (sfx \<noteq> [] \<and> hd sfx \<noteq> CHR ''.'') \<or> sfx = ''.'' then Inl ValueError
      else if name p = [] then Inl ValueError
      else
        let old_suffix = suffix p;
            nm = (if old_suffix = [] then name p @ sfx
                  else take (length (name p) - length old_suffix) (name p) @ sfx)
        in Inr (Path (root p) (butlast (comps p) @ [nm])))"

fun join_sep :: "string list \<Rightarrow> string" where
  "join_sep [] = []"
| "join_sep [x] = x"
| "join_sep (x # y # ys) = x @ ''/'' @ join_sep (y # ys)"

text \<open>\<^verbatim>\<open>str(p)\<close>.\<close>

definition str_path :: "path \<Rightarrow> string" where
  "str_path p = (if root p = [] \<and> comps p = [] then ''.'' else root p @ join_sep (comps p))"

section \<open>The world outside the process\<close>

text \<open>
  What the module reads and changes: regular files with their text, directories, the
  open file objects of the process (\<open>fds\<close>, numbered from \<open>next_fd\<close>), the exclusive
  \<^verbatim>\<open>flock\<close>s (\<open>flocks p = Some h\<close>: the file at \<open>p\<close> is locked through the open file \<open>h\<close>),
  and the log. A file is identified with its path: no links, and \<^verbatim>\<open>..\<close> is a name like
  any other. \<open>pid\<close> and \<open>tid\<close> are \<^verbatim>\<open>os.getpid()\<close> and \<^verbatim>\<open>threading.get_ident()\<close>.
\<close>

datatype level = INFO | WARNING

datatype logval = LStr string | LInt int | LExc pyexc

record world =
  files :: "path \<Rightarrow> string option"
  dirs :: "path set"
  fds :: "nat \<Rightarrow> path option"
  next_fd :: nat
  flocks :: "path \<Rightarrow> nat option"
  logs :: "(level \<times> (string \<times> logval) list) list"
  pid :: "32 word"
  tid :: "64 word"

text \<open>\<^verbatim>\<open>path.exists()\<close>.\<close>

definition path_exists :: "world \<Rightarrow> path \<Rightarrow> bool" where
  "path_exists w p = (p \<in> dirs w \<or> files w p \<noteq> None)"

text \<open>\<^verbatim>\<open>path.open("r").read()\<close>: the whole text of a regular file.\<close>

definition open_r :: "world \<Rightarrow> path \<Rightarrow> pyexc + string" where
  "open_r w p =
     (if p \<in> dirs w then Inl IsADirectoryError
      else case files w p of None \<Rightarrow> Inl FileNotFoundError | Some text \<Rightarrow> Inr text)"

text \<open>\<^verbatim>\<open>path.open("w")\<close>: the file is created, or emptied when it is there.\<close>

definition open_w :: "world \<Rightarrow> path \<Rightarrow> pyexc + world" where
  "open_w w p =
     (if p \<in> dirs w then Inl IsADirectoryError
      else if files w (parent p) \<noteq> None then Inl NotADirectoryError
      else if parent p \<notin> dirs w then Inl FileNotFoundError
      else Inr (w\<lparr>files := (files w)(p \<mapsto> [])\<rparr>))"

text \<open>
  \<^verbatim>\<open>d.mkdir(parents=True, exist_ok=True)\<close>: an existing directory is left alone, missing
  ancestors are made first, a regular file in the way is an error.
\<close>

function mkdir_parents :: "world \<Rightarrow> path \<Rightarrow> pyexc + world" where
  "mkdir_parents w d =
     (if d \<in> dirs w then Inr w
      else if files w d \<noteq> None then Inl FileExistsError
      else if comps d = [] then Inl FileNotFoundError
      else if files w (parent d) \<noteq> None then Inl NotADirectoryError
      else if parent d \<in> dirs w then Inr (w\<lparr>dirs := insert d (dirs w)\<rparr>)
      else (case mkdir_parents w (parent d) of
              Inl e \<Rightarrow> Inl e
            | Inr w1 \<Rightarrow> Inr (w1\<lparr>dirs := insert d (dirs w1)\<rparr>)))"
  by pat_completeness auto
termination
  by (relation "measure (\<lambda>(w, d). length (comps d))") (auto simp: parent_def)

declare mkdir_parents.simps [simp del]

text \<open>\<^verbatim>\<open>src.replace(dst)\<close>, the system call \<^verbatim>\<open>rename\<close>: one step, nothing in between.\<close>

definition replace :: "world \<Rightarrow> path \<Rightarrow> path \<Rightarrow> pyexc + world" where
  "replace w src dst =
     (case files w src of
        None \<Rightarrow> Inl FileNotFoundError
      | Some text \<Rightarrow>
          if dst \<in> dirs w then Inl IsADirectoryError
          else if files w (parent dst) \<noteq> None then Inl NotADirectoryError
          else if parent dst \<notin> dirs w then Inl FileNotFoundError
          else if src = dst then Inr w
          else Inr (w\<lparr>files := (files w)(src := None, dst \<mapsto> text)\<rparr>))"

text \<open>
  \<^verbatim>\<open>fcntl.flock(f, LOCK_EX)\<close> returns once no other open file holds the lock; while
  another does, it does not return: that is \<open>None\<close>. On a closed file it raises.
\<close>

definition flock_ex :: "world \<Rightarrow> nat \<Rightarrow> (pyexc + world) option" where
  "flock_ex w h =
     (case fds w h of
        None \<Rightarrow> Some (Inl ValueError)
      | Some p \<Rightarrow>
          (case flocks w p of
             None \<Rightarrow> Some (Inr (w\<lparr>flocks := (flocks w)(p \<mapsto> h)\<rparr>))
           | Some h' \<Rightarrow> if h' = h then Some (Inr w) else None))"

text \<open>Every lock held through the open file \<open>h\<close> is dropped.\<close>

definition without_holder :: "(path \<Rightarrow> nat option) \<Rightarrow> nat \<Rightarrow> path \<Rightarrow> nat option" where
  "without_holder m h = (\<lambda>p. if m p = Some h then None else m p)"

definition drop_locks :: "world \<Rightarrow> nat \<Rightarrow> world" where
  "drop_locks w h = w\<lparr>flocks := without_holder (flocks w) h\<rparr>"

text \<open>\<^verbatim>\<open>fcntl.flock(f, LOCK_UN)\<close>.\<close>

definition flock_un :: "world \<Rightarrow> nat \<Rightarrow> pyexc + world" where
  "flock_un w h =
     (case fds w h of
        None \<Rightarrow> Inl ValueError
      | Some p \<Rightarrow> Inr (drop_locks w h))"

text \<open>\<^verbatim>\<open>f.close()\<close>: closing also gives up the file's lock; closing twice is allowed.\<close>

definition close :: "world \<Rightarrow> nat \<Rightarrow> world" where
  "close w h = (drop_locks w h)\<lparr>fds := (fds w)(h := None)\<rparr>"

section \<open>The module\<close>

text \<open>The configuration read from the environment when the module is loaded.\<close>

record config =
  COUNTER_FILE :: string
  APP_VERSION :: string

text \<open>
  \<^verbatim>\<open>log_json(level_func, payload)\<close>: \<^verbatim>\<open>pid\<close> and \<^verbatim>\<open>tid\<close> are added, the payload is
  serialised with \<^verbatim>\<open>json.dumps\<close> and handed to the logger. \<^verbatim>\<open>json.dumps\<close> raises on an
  \<^verbatim>\<open>int\<close> of more than \<open>max_str_digits\<close> digits. \<open>LExc e\<close> stands for the text \<^verbatim>\<open>str(e)\<close>.
\<close>

definition dumps_ok :: "logval \<Rightarrow> bool" where
  "dumps_ok v = (case v of LInt n \<Rightarrow> length (nat_digits (nat \<bar>n\<bar>)) \<le> max_str_digits | _ \<Rightarrow> True)"

definition with_ids :: "world \<Rightarrow> (string \<times> logval) list \<Rightarrow> (string \<times> logval) list" where
  "with_ids w payload =
     payload @ [(''pid'', LInt (uint (pid w))), (''tid'', LInt (uint (tid w)))]"

definition log_json :: "world \<Rightarrow> level \<Rightarrow> (string \<times> logval) list \<Rightarrow> pyexc + world" where
  "log_json w level_func payload =
     (if list_all (\<lambda>kv. dumps_ok (snd kv)) (with_ids w payload)
      then Inr (w\<lparr>logs := logs w @ [(level_func, with_ids w payload)]\<rparr>)
      else Inl ValueError)"

text \<open>
  The \<^verbatim>\<open>try\<close> block of \<^verbatim>\<open>_read_counter\<close>: open, \<^verbatim>\<open>json.load\<close>,
  \<^verbatim>\<open>int(data.get("counter", 0))\<close>.
\<close>

definition read_try :: "world \<Rightarrow> path \<Rightarrow> pyexc + int" where
  "read_try w path =
     bind_exc (open_r w path) (\<lambda>text.
     bind_exc (json_loads text) (\<lambda>data.
     bind_exc (py_get data ''counter'' (PInt 0)) py_int))"

text \<open>The payload of the warning that the \<^verbatim>\<open>except\<close> clause logs.\<close>

definition read_failed :: "path \<Rightarrow> pyexc \<Rightarrow> (string \<times> logval) list" where
  "read_failed path e =
     [(''event'', LStr ''read_failed''), (''path'', LStr (str_path path)), (''error'', LExc e)]"

text \<open>
  \<^verbatim>\<open>_read_counter\<close>: whatever the \<^verbatim>\<open>try\<close> block raises is caught, logged and turned
  into 0.
\<close>

definition read_counter :: "world \<Rightarrow> path \<Rightarrow> (pyexc + int) \<times> world" where
  "read_counter w path =
     (if \<not> path_exists w path then (Inr 0, w)
      else
        (case read_try w path of
           Inr n \<Rightarrow> (Inr n, w)
         | Inl e \<Rightarrow>
             (case log_json w WARNING (read_failed path e) of
                Inl e' \<Rightarrow> (Inl e', w)
              | Inr w' \<Rightarrow> (Inr 0, w'))))"

text \<open>
  The worlds in which the temporary file holds the first \<open>k\<close> characters of \<open>text\<close>, for
  \<open>k\<close> from 0 to the whole text: what is on disk while \<open>text\<close> is being written to a file
  just opened for writing.
\<close>

definition writing :: "world \<Rightarrow> path \<Rightarrow> string \<Rightarrow> world list" where
  "writing w p text =
     map (\<lambda>k. w\<lparr>files := (files w)(p \<mapsto> take k text)\<rparr>) [0..<Suc (length text)]"

text \<open>
  \<^verbatim>\<open>_write_counter\<close>, with every world the filesystem passes through on the way, in order,
  and the outcome. \<^verbatim>\<open>path.parent.mkdir\<close> comes first, then \<^verbatim>\<open>with_suffix\<close>, then the
  temporary file is opened and written, then it replaces the target.
\<close>

definition write_counter_steps :: "world \<Rightarrow> path \<Rightarrow> int \<Rightarrow> world list \<times> (pyexc + unit)" where
  "write_counter_steps w path v =
     (case mkdir_parents w (parent path) of
        Inl e \<Rightarrow> ([], Inl e)
      | Inr w1 \<Rightarrow>
          (case with_suffix path ''.tmp'' of
             Inl e \<Rightarrow> ([w1], Inl e)
           | Inr tmp_path \<Rightarrow>
               (case open_w w1 tmp_path of
                  Inl e \<Rightarrow> ([w1], Inl e)
                | Inr w2 \<Rightarrow>
                    (case json_dump_counter v of
                       (text, Some e) \<Rightarrow> (w1 # writing w2 tmp_path text, Inl e)
                     | (text, None) \<Rightarrow>
                         (case replace (last (writing w2 tmp_path text)) tmp_path path of
                            Inl e \<Rightarrow> (w1 # writing w2 tmp_path text, Inl e)
                          | Inr w3 \<Rightarrow> (w1 # writing w2 tmp_path text @ [w3], Inr ()))))))"

definition write_counter :: "world \<Rightarrow> path \<Rightarrow> int \<Rightarrow> (pyexc + unit) \<times> world" where
  "write_counter w path v =
     (case write_counter_steps w path v of (ws, r) \<Rightarrow> (r, last (w # ws)))"

text \<open>
  The \<^verbatim>\<open>finally\<close> clauses of \<^verbatim>\<open>_exclusive_file_lock\<close>: unlock, then close whether or not
  unlocking raised. \<open>r\<close> is the outcome of the \<^verbatim>\<open>try\<close> block, which an exception of
  the unlock replaces.
\<close>

definition release :: "world \<Rightarrow> nat \<Rightarrow> pyexc + 'a \<Rightarrow> (pyexc + 'a) \<times> world" where
  "release w h r =
     (case flock_un w h of
        Inl e \<Rightarrow> (Inl e, close w h)
      | Inr w' \<Rightarrow> (r, close w' h))"

text \<open>
  The lines of \<^verbatim>\<open>_exclusive_file_lock\<close> before its \<^verbatim>\<open>try\<close>: the lock path, its
  directory, and the lock file opened for writing. The result is the open file
  \<^verbatim>\<open>lock_f\<close> with the world it is open in, or the exception with the world it left.
\<close>

definition open_lock :: "world \<Rightarrow> path \<Rightarrow> pyexc \<times> world + nat \<times> world" where
  "open_lock w target_path =
     (case with_suffix target_path ''.lock'' of
        Inl e \<Rightarrow> Inl (e, w)
      | Inr lock_path \<Rightarrow>
          (case mkdir_parents w (parent lock_path) of
             Inl e \<Rightarrow> Inl (e, w)
           | Inr w1 \<Rightarrow>
               (case open_w w1 lock_path of
                  Inl e \<Rightarrow> Inl (e, w1)
                | Inr w2 \<Rightarrow>
                    Inr (next_fd w2,
                         w2\<lparr>fds := (fds w2)(next_fd w2 \<mapsto> lock_path),
                            next_fd := Suc (next_fd w2)\<rparr>))))"

text \<open>
  \<^verbatim>\<open>_exclusive_file_lock\<close>, as the \<^verbatim>\<open>with\<close> statement runs it around \<open>body\<close>. The result
  is \<open>None\<close> when \<^verbatim>\<open>flock\<close> never returns.
\<close>

definition exclusive_file_lock ::
  "world \<Rightarrow> path \<Rightarrow> (world \<Rightarrow> (pyexc + 'a) \<times> world) \<Rightarrow> ((pyexc + 'a) \<times> world) option" where
  "exclusive_file_lock w target_path body =
     (case open_lock w target_path of
        Inl (e, w1) \<Rightarrow> Some (Inl e, w1)
      | Inr (lock_f, w3) \<Rightarrow>
          (case flock_ex w3 lock_f of
             None \<Rightarrow> None
           | Some (Inl e) \<Rightarrow> Some (release w3 lock_f (Inl e))
           | Some (Inr w4) \<Rightarrow>
               (case body w4 of (r, w5) \<Rightarrow> Some (release w5 lock_f r))))"

text \<open>
  The handler of \<^verbatim>\<open>/\<close>. \<open>increment\<close> is the body of its \<^verbatim>\<open>with\<close> statement; the
  response is the counter of the JSON body and the status.
\<close>

datatype http_method = GET | POST

definition increment :: "path \<Rightarrow> world \<Rightarrow> (pyexc + int) \<times> world" where
  "increment path w =
     (case read_counter w path of
        (Inl e, w1) \<Rightarrow> (Inl e, w1)
      | (Inr current, w1) \<Rightarrow>
          (case write_counter w1 path (current + 1) of
             (Inl e, w2) \<Rightarrow> (Inl e, w2)
           | (Inr _, w2) \<Rightarrow> (Inr (current + 1), w2)))"

definition index :: "config \<Rightarrow> world \<Rightarrow> http_method \<Rightarrow> ((pyexc + int \<times> nat) \<times> world) option" where
  "index cfg w method =
     (let path = Path_of (COUNTER_FILE cfg)
      in if method = POST then
           (case exclusive_file_lock w path (increment path) of
              None \<Rightarrow> None
            | Some (Inl e, w1) \<Rightarrow> Some (Inl e, w1)
            | Some (Inr current, w1) \<Rightarrow>
                (case log_json w1 INFO
                        [(''event'', LStr ''increment''), (''counter'', LInt current)] of
                   Inl e \<Rightarrow> Some (Inl e, w1)
                 | Inr w2 \<Rightarrow> Some (Inr (current, 200), w2)))
         else
           (case read_counter w path of
              (Inl e, w1) \<Rightarrow> Some (Inl e, w1)
            | (Inr current, w1) \<Rightarrow> Some (Inr (current, 200), w1)))"


section \<open>Requests side by side\<close>

text \<open>
  Several \<^verbatim>\<open>POST /\<close> requests, in threads or in processes that share the volume, run the
  handler at the same time. Each is at one of the points of \<open>pc\<close>, and \<open>step\<close> takes it to
  the next: the lock file is opened (\<open>Opened\<close>), \<^verbatim>\<open>flock\<close> returns (\<open>Locked\<close>), the counter is
  read (\<open>Fetched\<close>), the new value is written (\<open>Stored\<close>), the \<^verbatim>\<open>finally\<close> clauses have run
  (\<open>Unlocked\<close>), the increment is logged and the response sent (\<open>Answered\<close>). An exception
  ends the request in \<open>Failed\<close>, after the \<^verbatim>\<open>finally\<close> clauses (\<open>abort\<close>) when it was raised
  inside the \<^verbatim>\<open>try\<close>. A request in \<^verbatim>\<open>flock\<close> has no step while another open file holds
  the lock. Each step is one of the operations above, taken as a whole; the steps of
  different requests interleave in any order.
\<close>

datatype pc =
    Start
  | Opened nat
  | Locked nat
  | Fetched nat int
  | Stored nat int
  | Unlocked int
  | Answered int
  | Failed pyexc

definition abort :: "world \<Rightarrow> nat \<Rightarrow> pyexc \<Rightarrow> pc \<times> world" where
  "abort w lock_f e =
     (case release w lock_f (Inl e :: pyexc + unit) of
        (Inl e', w') \<Rightarrow> (Failed e', w')
      | (Inr _, w') \<Rightarrow> (Failed e, w'))"

fun step :: "path \<Rightarrow> world \<Rightarrow> pc \<Rightarrow> (pc \<times> world) option" where
  "step path w Start =
     (case open_lock w path of
        Inl (e, w1) \<Rightarrow> Some (Failed e, w1)
      | Inr (lock_f, w3) \<Rightarrow> Some (Opened lock_f, w3))"
| "step path w (Opened lock_f) =
     (case flock_ex w lock_f of
        None \<Rightarrow> None
      | Some (Inl e) \<Rightarrow> Some (abort w lock_f e)
      | Some (Inr w4) \<Rightarrow> Some (Locked lock_f, w4))"
| "step path w (Locked lock_f) =
     (case read_counter w path of
        (Inl e, w1) \<Rightarrow> Some (abort w1 lock_f e)
      | (Inr current, w1) \<Rightarrow> Some (Fetched lock_f current, w1))"
| "step path w (Fetched lock_f current) =
     (case write_counter w path (current + 1) of
        (Inl e, w2) \<Rightarrow> Some (abort w2 lock_f e)
      | (Inr _, w2) \<Rightarrow> Some (Stored lock_f (current + 1), w2))"
| "step path w (Stored lock_f current) =
     (case release w lock_f (Inr current) of
        (Inl e, w') \<Rightarrow> Some (Failed e, w')
      | (Inr c, w') \<Rightarrow> Some (Unlocked c, w'))"
| "step path w (Unlocked current) =
     (case log_json w INFO [(''event'', LStr ''increment''), (''counter'', LInt current)] of
        Inl e \<Rightarrow> Some (Failed e, w)
      | Inr w' \<Rightarrow> Some (Answered current, w'))"
| "step path w (Answered current) = None"
| "step path w (Failed e) = None"

text \<open>One request on its own, for at most \<open>k\<close> steps.\<close>

fun run :: "nat \<Rightarrow> path \<Rightarrow> pc \<times> world \<Rightarrow> pc \<times> world" where
  "run 0 path s = s"
| "run (Suc k) path (pc, w) =
     (case step path w pc of None \<Rightarrow> (pc, w) | Some s \<Rightarrow> run k path s)"


text \<open>
  A request carries the ids of its process and thread, which its log records show.
  The system is the shared world and the list of requests; \<open>sys_step\<close> lets any one of
  them take its next step.
\<close>

record request =
  rpid :: "32 word"
  rtid :: "64 word"
  at :: pc

definition as_process :: "world \<Rightarrow> request \<Rightarrow> world" where
  "as_process w r = w\<lparr>pid := rpid r, tid := rtid r\<rparr>"











section \<open>Sample worlds\<close>

text \<open>
  The default deployment: the counter file is \<^verbatim>\<open>/data/counter.json\<close>. In \<open>empty_volume\<close>
  only the root directory exists; in \<open>volume_with p text\<close> the data directory exists
  and the file \<open>p\<close> holds \<open>text\<close>. No file is open and no lock is held.
\<close>

definition data_dir :: path where
  "data_dir = Path ''/'' [''data'']"

definition counter_json :: path where
  "counter_json = Path ''/'' [''data'', ''counter.json'']"

definition default_config :: config where
  "default_config = \<lparr>COUNTER_FILE = ''/data/counter.json'', APP_VERSION = ''dev''\<rparr>"

definition empty_volume :: world where
  "empty_volume =
     \<lparr>files = Map.empty, dirs = {Path ''/'' []}, fds = Map.empty, next_fd = 3,
      flocks = Map.empty, logs = [], pid = 1, tid = 1\<rparr>"

definition volume_with :: "path \<Rightarrow> string \<Rightarrow> world" where
  "volume_with p text =
     empty_volume\<lparr>files := [p \<mapsto> text], dirs := {Path ''/'' [], data_dir}\<rparr>"

text \<open>Two other names the counter file can be given through \<^verbatim>\<open>COUNTER_FILE\<close>.\<close>

definition counter_tmp :: path where
  "counter_tmp = Path ''/'' [''data'', ''counter.tmp'']"

definition counter_lock :: path where
  "counter_lock = Path ''/'' [''data'', ''counter.lock'']"



declare parse_value.simps [simp del] parse_members.simps [simp del]
  parse_elements.simps [simp del]

section \<open>Decimal digits\<close>

lemma nat_digits_nonempty: "nat_digits n \<noteq> []"
  by (subst nat_digits.simps) simp

lemma below_ten: "d < 10 \<Longrightarrow> d \<in> {0, 1, 2, 3, 4, 5, 6, 7, 8, 9 :: nat}"
  by auto

lemma is_digit_digit_char: "d < 10 \<Longrightarrow> is_digit (digit_char d)"
  using below_ten [of d] by (auto simp: is_digit_def digit_char_def)

lemma digit_val_digit_char: "d < 10 \<Longrightarrow> digit_val (digit_char d) = int d"
  using below_ten [of d] by (auto simp: digit_val_def digit_char_def)

lemma digit_char_zero: "d < 10 \<Longrightarrow> digit_char d = CHR ''0'' \<longleftrightarrow> d = 0"
  using below_ten [of d] by (auto simp: digit_char_def)

lemma nat_digits_all_digits: "\<forall>c \<in> set (nat_digits n). is_digit c"
proof (induction n rule: nat_digits.induct)
  case (1 n)
  show ?case
  proof (cases "n < 10")
    case True
    then show ?thesis by (subst nat_digits.simps) (simp add: is_digit_digit_char)
  next
    case False
    with 1 show ?thesis by (subst nat_digits.simps) (simp add: is_digit_digit_char)
  qed
qed

lemma digits_val_snoc: "digits_val (ds @ [c]) = 10 * digits_val ds + digit_val c"
  by (simp add: digits_val_def)

lemma digits_val_nat_digits: "digits_val (nat_digits n) = int n"
proof (induction n rule: nat_digits.induct)
  case (1 n)
  show ?case
  proof (cases "n < 10")
    case True
    then show ?thesis
      by (subst nat_digits.simps) (simp add: digits_val_def digit_val_digit_char)
  next
    case False
    with 1 have "digits_val (nat_digits (n div 10)) = int (n div 10)" by simp
    moreover have "10 * int (n div 10) + int (n mod 10) = int n"
      by (metis mult_div_mod_eq of_nat_add of_nat_mult of_nat_numeral)
    ultimately show ?thesis using False
      by (subst nat_digits.simps) (simp add: digits_val_snoc digit_val_digit_char)
  qed
qed

lemma hd_nat_digits: "hd (nat_digits n) = CHR ''0'' \<longleftrightarrow> n = 0"
proof (induction n rule: nat_digits.induct)
  case (1 n)
  show ?case
  proof (cases "n < 10")
    case True
    then show ?thesis by (subst nat_digits.simps) (simp add: digit_char_zero)
  next
    case False
    with 1 have "hd (nat_digits (n div 10)) = CHR ''0'' \<longleftrightarrow> n div 10 = 0" by simp
    with False show ?thesis
      by (subst nat_digits.simps) (simp add: nat_digits_nonempty)
  qed
qed

lemma nat_digits_cons:
  "\<exists>d ds. nat_digits n = d # ds \<and> is_digit d \<and> (\<forall>c \<in> set ds. is_digit c)
     \<and> (d = CHR ''0'' \<longleftrightarrow> n = 0)"
proof (cases "nat_digits n")
  case Nil
  then show ?thesis by (simp add: nat_digits_nonempty)
next
  case (Cons d ds)
  with nat_digits_all_digits [of n] hd_nat_digits [of n] show ?thesis by auto
qed

lemma nat_digits_0: "nat_digits 0 = ''0''"
  by (subst nat_digits.simps) (simp add: digit_char_def)

subsection \<open>Scanning the digits back\<close>

lemma takeWhile_digits: "\<forall>c \<in> set ds. is_digit c \<Longrightarrow> takeWhile is_digit (ds @ ''}'') = ds"
  by (induction ds) (auto simp: is_digit_def)

lemma dropWhile_digits: "\<forall>c \<in> set ds. is_digit c \<Longrightarrow> dropWhile is_digit (ds @ ''}'') = ''}''"
  by (induction ds) (auto simp: is_digit_def)

lemma not_digit_brace: "\<not> is_digit CHR ''}''"
  by (simp add: is_digit_def)

lemma cut_int_nat_digits:
  "cut_int (nat_digits n @ ''}'') = Some (False, nat_digits n, ''}'')"
proof -
  obtain d ds where d: "nat_digits n = d # ds" "is_digit d" "\<forall>c \<in> set ds. is_digit c"
    "d = CHR ''0'' \<longleftrightarrow> n = 0"
    using nat_digits_cons by blast
  have neq: "d \<noteq> CHR ''-''" using d(2) by (auto simp: is_digit_def)
  show ?thesis
  proof (cases "n = 0")
    case True
    then show ?thesis by (simp add: nat_digits_0 cut_int_def is_digit_def)
  next
    case False
    with d neq show ?thesis
      by (simp add: cut_int_def takeWhile_digits dropWhile_digits not_digit_brace)
  qed
qed

lemma cut_int_neg_digits:
  "0 < n \<Longrightarrow> cut_int (CHR ''-'' # nat_digits n @ ''}'') = Some (True, nat_digits n, ''}'')"
proof -
  assume pos: "0 < n"
  obtain d ds where d: "nat_digits n = d # ds" "is_digit d" "\<forall>c \<in> set ds. is_digit c"
    "d = CHR ''0'' \<longleftrightarrow> n = 0"
    using nat_digits_cons by blast
  with pos show ?thesis
    by (simp add: cut_int_def takeWhile_digits dropWhile_digits not_digit_brace)
qed

lemma cut_int_int_digits_str:
  "cut_int (int_digits_str v @ ''}'') = Some (v < 0, nat_digits (nat \<bar>v\<bar>), ''}'')"
proof (cases "v < 0")
  case True
  then have "0 < nat (- v)" by simp
  from cut_int_neg_digits [OF this] True show ?thesis
    by (simp add: int_digits_str_def abs_if)
next
  case False
  with cut_int_nat_digits [of "nat v"] show ?thesis
    by (simp add: int_digits_str_def abs_if)
qed

lemma scan_number_int_digits_str:
  "length (nat_digits (nat \<bar>v\<bar>)) \<le> max_str_digits \<Longrightarrow>
   scan_number (int_digits_str v @ ''}'') = Some (Inr (PInt v, ''}''))"
  by (simp add: scan_number_def cut_int_int_digits_str cut_frac_def cut_exp_def
      digits_val_nat_digits abs_if)

subsection \<open>The counter document decodes to its value\<close>

lemma int_digits_str_cons:
  "\<exists>c r. int_digits_str v = c # r \<and> (is_digit c \<or> c = CHR ''-'')"
proof -
  obtain d ds where "nat_digits (nat v) = d # ds" "is_digit d"
    using nat_digits_cons by blast
  then show ?thesis by (auto simp: int_digits_str_def)
qed

lemma digit_not_special:
  assumes "is_digit c \<or> c = CHR ''-''"
  shows "c \<noteq> CHR 0x22" "c \<noteq> CHR ''{''" "c \<noteq> CHR ''[''" "c \<noteq> CHR ''n''" "c \<noteq> CHR ''t''"
    "c \<noteq> CHR ''f''" "c \<noteq> CHR ''N''" "c \<noteq> CHR ''I''"
  using assms by (auto simp: is_digit_def)

lemma parse_value_number:
  assumes "is_digit c \<or> c = CHR ''-''"
  shows "parse_value (Suc k) (c # r) =
           (case scan_number (c # r) of Some res \<Rightarrow> res
            | None \<Rightarrow> if starts_with (c # r) ''-Infinity''
                       then Inr (PFloat (Infinity True), drop 9 (c # r))
                       else Inl JSONDecodeError)"
  by (simp add: parse_value.simps starts_with_def digit_not_special [OF assms])

lemma parse_value_int_digits_str:
  assumes "length (nat_digits (nat \<bar>v\<bar>)) \<le> max_str_digits"
  shows "parse_value (Suc k) (int_digits_str v @ ''}'') = Inr (PInt v, ''}'')"
proof -
  obtain c r where cr: "int_digits_str v = c # r" "is_digit c \<or> c = CHR ''-''"
    using int_digits_str_cons by blast
  have "parse_value (Suc k) (c # (r @ ''}'')) =
          (case scan_number (c # (r @ ''}'')) of Some res \<Rightarrow> res
           | None \<Rightarrow> if starts_with (c # (r @ ''}'')) ''-Infinity''
                      then Inr (PFloat (Infinity True), drop 9 (c # (r @ ''}'')))
                      else Inl JSONDecodeError)"
    using cr(2) by (rule parse_value_number)
  moreover have "scan_number (c # (r @ ''}'')) = Some (Inr (PInt v, ''}''))"
    using scan_number_int_digits_str [OF assms] cr(1) by simp
  ultimately show ?thesis using cr(1) by simp
qed

lemma skip_ws_int_digits_str: "dropWhile is_ws (int_digits_str v @ s) = int_digits_str v @ s"
proof -
  obtain c r where cr: "int_digits_str v = c # r" "is_digit c \<or> c = CHR ''-''"
    using int_digits_str_cons by blast
  then show ?thesis by (auto simp: is_ws_def is_digit_def)
qed

lemma parse_members_counter:
  assumes "length (nat_digits (nat \<bar>v\<bar>)) \<le> max_str_digits"
  shows \<open>parse_members (Suc (Suc k)) [] (''counter": '' @ int_digits_str v @ ''}'')
           = Inr (PDict [(''counter'', PInt v)], [])\<close>
  by (simp add: parse_members.simps parse_value_int_digits_str [OF assms]
      skip_ws_int_digits_str starts_with_def skip_ws_def is_ws_def)

lemma parse_value_counter:
  assumes "length (nat_digits (nat \<bar>v\<bar>)) \<le> max_str_digits"
  shows \<open>parse_value (Suc (Suc (Suc k))) (''{"counter": '' @ int_digits_str v @ ''}'')
           = Inr (PDict [(''counter'', PInt v)], [])\<close>
  using parse_members_counter [OF assms, of k]
  by (simp add: parse_value.simps starts_with_def skip_ws_def is_ws_def)

lemma json_loads_counter:
  assumes "length (nat_digits (nat \<bar>v\<bar>)) \<le> max_str_digits"
  shows \<open>json_loads (''{"counter": '' @ int_digits_str v @ ''}'')
           = Inr (PDict [(''counter'', PInt v)])\<close>
proof -
  let ?doc = \<open>''{"counter": '' @ int_digits_str v @ ''}''\<close>
  obtain k where k: "Suc (2 * length ?doc) = Suc (Suc (Suc k))"
    by simp
  have "skip_ws ?doc = ?doc"
    by (simp add: skip_ws_def is_ws_def)
  then have "json_loads ?doc =
      (case parse_value (Suc (Suc (Suc k))) ?doc of
         Inl e \<Rightarrow> Inl e
       | Inr (v, rest) \<Rightarrow> if skip_ws rest = [] then Inr v else Inl JSONDecodeError)"
    unfolding json_loads_def k by simp
  also have "\<dots> = Inr (PDict [(''counter'', PInt v)])"
    unfolding parse_value_counter [OF assms] by (simp add: skip_ws_def)
  finally show ?thesis .
qed

lemma json_dump_loads:
  "json_dump_counter v = (text, None) \<Longrightarrow> json_loads text = Inr (PDict [(''counter'', PInt v)])"
  using json_loads_counter [of v] by (auto simp: json_dump_counter_def split: if_splits)

section \<open>Logging and reading\<close>

lemma length_nat_digits: "n < 10 ^ k \<Longrightarrow> 0 < k \<Longrightarrow> length (nat_digits n) \<le> k"
proof (induction n arbitrary: k rule: nat_digits.induct)
  case (1 n)
  show ?case
  proof (cases "n < 10")
    case True
    with 1(3) show ?thesis by (subst nat_digits.simps) simp
  next
    case False
    obtain j where j: "k = Suc j" using 1(3) by (cases k) auto
    have "0 < j"
    proof (rule ccontr)
      assume "\<not> 0 < j"
      with j 1(2) False show False by simp
    qed
    moreover have "n div 10 < 10 ^ j" using 1(2) j by (simp add: less_mult_imp_div_less mult.commute)
    ultimately have "length (nat_digits (n div 10)) \<le> j" using 1(1) False by simp
    with False j show ?thesis by (subst nat_digits.simps) simp
  qed
qed

lemma dumps_ok_pid: "dumps_ok (LInt (uint (x :: 32 word)))"
proof -
  have "unat x < 2 ^ 32" using unsigned_less [of x, where ?'a = nat] by simp
  then have "unat x < 10 ^ 10" by simp
  then have "length (nat_digits (unat x)) \<le> 10" by (rule length_nat_digits) simp
  then show ?thesis by (simp add: dumps_ok_def max_str_digits_def)
qed

lemma dumps_ok_tid: "dumps_ok (LInt (uint (x :: 64 word)))"
proof -
  have "unat x < 2 ^ 64" using unsigned_less [of x, where ?'a = nat] by simp
  then have "unat x < 10 ^ 20" by simp
  then have "length (nat_digits (unat x)) \<le> 20" by (rule length_nat_digits) simp
  then show ?thesis by (simp add: dumps_ok_def max_str_digits_def)
qed

lemma log_json_read_failed:
  "log_json w WARNING (read_failed p e) =
     Inr (w\<lparr>logs := logs w @ [(WARNING, with_ids w (read_failed p e))]\<rparr>)"
  by (simp add: log_json_def with_ids_def read_failed_def dumps_ok_pid dumps_ok_tid)
     (simp add: dumps_ok_def)

lemma log_json_increment:
  "length (nat_digits (nat \<bar>c\<bar>)) \<le> max_str_digits \<Longrightarrow>
   log_json w INFO [(''event'', LStr ''increment''), (''counter'', LInt c)] =
     Inr (w\<lparr>logs := logs w @
            [(INFO, with_ids w [(''event'', LStr ''increment''), (''counter'', LInt c)])]\<rparr>)"
  by (simp add: log_json_def with_ids_def dumps_ok_pid dumps_ok_tid) (simp add: dumps_ok_def)

lemma read_counter_cases:
  "read_counter w p =
     (if \<not> path_exists w p then (Inr 0, w)
      else case read_try w p of
             Inr n \<Rightarrow> (Inr n, w)
           | Inl e \<Rightarrow> (Inr 0, w\<lparr>logs := logs w @ [(WARNING, with_ids w (read_failed p e))]\<rparr>))"
  by (simp add: read_counter_def log_json_read_failed split: sum.splits)

lemma read_counter_never_raises: "\<exists>n. fst (read_counter w p) = Inr n"
  by (simp add: read_counter_cases split: sum.splits)

lemma mkdir_parents_frame:
  "mkdir_parents w d = Inr w1 \<Longrightarrow> w1 = w\<lparr>dirs := dirs w1\<rparr> \<and> dirs w \<subseteq> dirs w1 \<and> d \<in> dirs w1"
proof (induction w d arbitrary: w1 rule: mkdir_parents.induct)
  case (1 w d)
  show ?case
  proof (cases "mkdir_parents w (parent d)")
    case (Inl e)
    with 1(2) show ?thesis
      by (subst (asm) mkdir_parents.simps) (auto split: if_splits)
  next
    case (Inr w')
    show ?thesis
    proof (cases "d \<in> dirs w \<or> files w d \<noteq> None \<or> comps d = [] \<or> files w (parent d) \<noteq> None \<or> parent d \<in> dirs w")
      case True
      with 1(2) show ?thesis
        by (subst (asm) mkdir_parents.simps) (auto split: if_splits)
    next
      case False
      with 1(1) [of w'] Inr have ih: "w' = w\<lparr>dirs := dirs w'\<rparr> \<and> dirs w \<subseteq> dirs w' \<and> parent d \<in> dirs w'"
        by simp
      from False Inr 1(2) have "w1 = w'\<lparr>dirs := insert d (dirs w')\<rparr>"
        by (subst (asm) mkdir_parents.simps) (auto split: if_splits)
      with ih show ?thesis
        by (metis (no_types, lifting) insertI1 subset_insertI2 world.select_convs(2) world.surjective world.update_convs(2))
    qed
  qed
qed

section \<open>Reading a missing file\<close>



section \<open>Writing the counter\<close>

lemma open_w_Inr:
  "open_w w p = Inr w' \<Longrightarrow> w' = w\<lparr>files := (files w)(p \<mapsto> [])\<rparr> \<and> p \<notin> dirs w \<and> parent p \<in> dirs w"
  by (auto simp: open_w_def split: if_splits)

lemma replace_Inr:
  "replace w src dst = Inr w' \<Longrightarrow>
     \<exists>text. files w src = Some text \<and> dst \<notin> dirs w \<and>
       w' = (if src = dst then w else w\<lparr>files := (files w)(src := None, dst \<mapsto> text)\<rparr>)"
  by (auto simp: replace_def split: option.splits if_splits)


lemma last_writing: "last (writing w p text) = w\<lparr>files := (files w)(p \<mapsto> text)\<rparr>"
  by (simp add: writing_def last_map del: upt_Suc)


lemma in_writing:
  assumes "s \<in> set (writing w p doc)"
  shows "\<exists>k \<le> length doc. s = w\<lparr>files := (files w)(p \<mapsto> take k doc)\<rparr>"
proof -
  from assms obtain k where "k < Suc (length doc)" "s = w\<lparr>files := (files w)(p \<mapsto> take k doc)\<rparr>"
    unfolding writing_def by (auto simp del: upt_Suc)
  then show ?thesis by (intro exI [of _ k]) simp
qed


lemma writing_dirs: "s \<in> set (writing w p text) \<Longrightarrow> dirs s = dirs w"
  by (auto dest: in_writing)


text \<open>The five ways \<^verbatim>\<open>_write_counter\<close> can end.\<close>

lemma write_counter_steps_cases:
  assumes "write_counter_steps w p v = (ws, r)"
  obtains
    (mkdir_failed) e where "mkdir_parents w (parent p) = Inl e" "ws = []" "r = Inl e"
  | (no_tmp) w1 e where "mkdir_parents w (parent p) = Inr w1" "ws = [w1]" "r = Inl e"
  | (dump_failed) w1 tmp w2 doc e where
      "mkdir_parents w (parent p) = Inr w1" "with_suffix p ''.tmp'' = Inr tmp"
      "open_w w1 tmp = Inr w2" "json_dump_counter v = (doc, Some e)"
      "ws = w1 # writing w2 tmp doc" "r = Inl e"
  | (replace_failed) w1 tmp w2 doc e where
      "mkdir_parents w (parent p) = Inr w1" "with_suffix p ''.tmp'' = Inr tmp"
      "open_w w1 tmp = Inr w2" "json_dump_counter v = (doc, None)"
      "replace (last (writing w2 tmp doc)) tmp p = Inl e"
      "ws = w1 # writing w2 tmp doc" "r = Inl e"
  | (replaced) w1 tmp w2 doc w3 where
      "mkdir_parents w (parent p) = Inr w1" "with_suffix p ''.tmp'' = Inr tmp"
      "open_w w1 tmp = Inr w2" "json_dump_counter v = (doc, None)"
      "replace (last (writing w2 tmp doc)) tmp p = Inr w3"
      "ws = w1 # writing w2 tmp doc @ [w3]" "r = Inr ()"
  using assms
  by (auto simp: write_counter_steps_def split: sum.splits prod.splits option.splits)


subsection \<open>Evaluating the sample worlds\<close>

lemma counter_json_tmp:
  "with_suffix counter_json ''.tmp'' = Inr (Path ''/'' [''data'', ''counter.tmp''])"
  by (simp add: with_suffix_def counter_json_def name_def suffix_def rfind_def)

lemma counter_tmp_tmp: "with_suffix counter_tmp ''.tmp'' = Inr counter_tmp"
  by (simp add: with_suffix_def counter_tmp_def name_def suffix_def rfind_def)

lemma mkdir_data_dir: "mkdir_parents (volume_with p doc) data_dir = Inr (volume_with p doc)"
  by (simp add: mkdir_parents.simps volume_with_def data_dir_def)

lemma json_dump_counter_2: \<open>json_dump_counter 2 = (''{"counter": 2}'', None)\<close>
  by (simp add: json_dump_counter_def nat_digits.simps int_digits_str_def digit_char_def
      max_str_digits_def)

lemmas world_eval =
  volume_with_def empty_volume_def data_dir_def counter_json_def counter_tmp_def
  counter_lock_def parent_def name_def suffix_def rfind_def with_suffix_def
  mkdir_parents.simps open_w_def open_r_def replace_def path_exists_def


subsection \<open>The target is replaced in one step\<close>




subsection \<open>Write, then read\<close>

lemma write_counter_written:
  assumes "write_counter w p v = (Inr (), w')"
  shows "\<exists>doc. json_dump_counter v = (doc, None) \<and> files w' p = Some doc \<and> p \<notin> dirs w'
           \<and> fds w' = fds w \<and> flocks w' = flocks w \<and> logs w' = logs w
           \<and> pid w' = pid w \<and> tid w' = tid w \<and> next_fd w' = next_fd w"
proof -
  obtain ws r where steps: "write_counter_steps w p v = (ws, r)"
    by (cases "write_counter_steps w p v")
  with assms have r: "r = Inr ()" and w': "w' = last (w # ws)"
    by (simp_all add: write_counter_def)
  from steps show ?thesis
  proof (cases rule: write_counter_steps_cases)
    case (replaced w1 tmp w2 doc w3)
    from replaced(6) w' have "w' = w3" by simp
    moreover from replaced(3) have w2: "w2 = w1\<lparr>files := (files w1)(tmp \<mapsto> [])\<rparr>"
      by (simp add: open_w_Inr)
    moreover from mkdir_parents_frame [OF replaced(1)] have "w1 = w\<lparr>dirs := dirs w1\<rparr>"
      by simp
    then have "fds w1 = fds w \<and> flocks w1 = flocks w \<and> logs w1 = logs w
           \<and> pid w1 = pid w \<and> tid w1 = tid w \<and> next_fd w1 = next_fd w"
      by (metis world.select_convs world.surjective world.update_convs(2))
    moreover note replace_Inr [OF replaced(5)] replaced(4)
    ultimately show ?thesis by (auto simp: last_writing split: if_splits)
  qed (use r in simp_all)
qed

lemma read_try_written:
  assumes "json_dump_counter v = (doc, None)" "files w p = Some doc" "p \<notin> dirs w"
  shows "read_try w p = Inr v"
  using assms json_dump_loads [OF assms(1)]
  by (simp add: read_try_def open_r_def bind_exc_def py_get_def py_int_def)

text \<open>
  Claim C3. For every path and every integer \<open>v\<close>: when \<^verbatim>\<open>_write_counter(path, v)\<close> has
  returned, \<^verbatim>\<open>_read_counter(path)\<close> in the world it left returns exactly \<open>v\<close>, and logs
  nothing.
\<close>

theorem write_then_read:
  "write_counter w p v = (Inr (), w') \<Longrightarrow> read_counter w' p = (Inr v, w')"
proof -
  assume "write_counter w p v = (Inr (), w')"
  then obtain doc where "json_dump_counter v = (doc, None)" "files w' p = Some doc" "p \<notin> dirs w'"
    using write_counter_written by blast
  then show ?thesis
    by (simp add: read_counter_cases read_try_written path_exists_def)
qed

lemma write_json_2:
  \<open>write_counter (volume_with counter_json ''{"counter": 1}'') counter_json 2 =
     (Inr (), volume_with counter_json ''{"counter": 2}'')\<close>
  by (simp add: write_counter_def write_counter_steps_def world_eval json_dump_counter_2
      last_writing fun_upd_twist)

theorem write_then_read_witness:
  \<open>write_counter (volume_with counter_json ''{"counter": 1}'') counter_json 2 =
     (Inr (), volume_with counter_json ''{"counter": 2}'')
   \<and> read_counter (volume_with counter_json ''{"counter": 2}'') counter_json =
     (Inr 2, volume_with counter_json ''{"counter": 2}'')\<close>
  using write_then_read [OF write_json_2] write_json_2 by simp

section \<open>The lock\<close>







lemma open_lock_Inr:
  assumes "open_lock w p = Inr (lock_f, w3)"
  shows "\<exists>lock_path w1 w2.
           with_suffix p ''.lock'' = Inr lock_path
         \<and> mkdir_parents w (parent lock_path) = Inr w1
         \<and> open_w w1 lock_path = Inr w2
         \<and> lock_f = next_fd w2
         \<and> w3 = w2\<lparr>fds := (fds w2)(lock_f \<mapsto> lock_path), next_fd := Suc lock_f\<rparr>"
  using assms by (auto simp: open_lock_def split: sum.splits)



lemma drop_locks_none: "flocks (drop_locks w h) q \<noteq> Some h"
  by (simp add: drop_locks_def without_holder_def)

lemma close_released: "fds (close w h) h = None \<and> (\<forall>q. flocks (close w h) q \<noteq> Some h)"
  by (simp add: close_def drop_locks_def without_holder_def)

lemma close_files: "files (close w h) = files w \<and> dirs (close w h) = dirs w \<and> logs (close w h) = logs w"
  by (simp add: close_def drop_locks_def without_holder_def)

lemma release_released:
  "release w h r = (r', w') \<Longrightarrow>
     fds w' h = None \<and> (\<forall>q. flocks w' q \<noteq> Some h) \<and> files w' = files w \<and> dirs w' = dirs w
     \<and> logs w' = logs w \<and> (fds w h \<noteq> None \<longrightarrow> r' = r)"
  by (auto simp: release_def flock_un_def close_def drop_locks_def without_holder_def split: option.splits if_splits)

lemma flock_ex_Inr:
  "flock_ex w h = Some (Inr w') \<Longrightarrow>
     \<exists>p. fds w h = Some p \<and> flocks w' p = Some h \<and> files w' = files w \<and> dirs w' = dirs w
        \<and> fds w' = fds w \<and> logs w' = logs w \<and> pid w' = pid w \<and> tid w' = tid w"
  by (auto simp: flock_ex_def split: option.splits if_splits)

text \<open>
  Claim C6. Once \<^verbatim>\<open>_exclusive_file_lock\<close> has opened the lock file and \<^verbatim>\<open>flock\<close> has
  granted the lock, then for every body, whether it returns a value or raises (\<open>r\<close> is
  either), the \<^verbatim>\<open>with\<close> statement ends, and in the world it leaves the lock file is
  closed and no lock is held through it. The outcome handed on is the body's own, value or
  exception, so the exception propagates from a world where the lock is already gone.
  (The proviso \<open>fds w5 lock_f \<noteq> None\<close> sets aside a body that closes the lock file itself,
  which the body of \<^verbatim>\<open>index\<close> cannot: it has no access to \<^verbatim>\<open>lock_f\<close>.) While the body
  runs, the lock is held.
\<close>

theorem lock_released:
  assumes "open_lock w p = Inr (lock_f, w3)"
    and "flock_ex w3 lock_f = Some (Inr w4)"
    and "body w4 = (r, w5)"
  shows "\<exists>r' w'. exclusive_file_lock w p body = Some (r', w')
           \<and> fds w' lock_f = None
           \<and> (\<forall>q. flocks w' q \<noteq> Some lock_f)
           \<and> (fds w5 lock_f \<noteq> None \<longrightarrow> r' = r)
           \<and> (\<exists>lock_path. fds w4 lock_f = Some lock_path \<and> flocks w4 lock_path = Some lock_f)"
proof -
  obtain r' w' where rel: "release w5 lock_f r = (r', w')"
    by (cases "release w5 lock_f r")
  with assms have "exclusive_file_lock w p body = Some (r', w')"
    by (simp add: exclusive_file_lock_def)
  moreover from flock_ex_Inr [OF assms(2)]
  have "\<exists>lock_path. fds w4 lock_f = Some lock_path \<and> flocks w4 lock_path = Some lock_f"
    by auto
  ultimately show ?thesis using release_released [OF rel] by blast
qed

text \<open>A body that raises, in the empty volume.\<close>

lemma open_lock_empty:
  "open_lock empty_volume counter_json =
     Inr (3, empty_volume\<lparr>files := [counter_lock \<mapsto> []], dirs := {Path ''/'' [], data_dir},
                          fds := [3 \<mapsto> counter_lock], next_fd := 4\<rparr>)"
  by (simp add: open_lock_def world_eval insert_commute)

lemma flock_ex_empty:
  "flock_ex (empty_volume\<lparr>files := [counter_lock \<mapsto> []], dirs := {Path ''/'' [], data_dir},
                            fds := [3 \<mapsto> counter_lock], next_fd := 4\<rparr>) 3 =
     Some (Inr (empty_volume\<lparr>files := [counter_lock \<mapsto> []], dirs := {Path ''/'' [], data_dir},
                             fds := [3 \<mapsto> counter_lock], next_fd := 4,
                             flocks := [counter_lock \<mapsto> 3]\<rparr>))"
  by (simp add: flock_ex_def empty_volume_def)

theorem lock_released_witness:
  "exclusive_file_lock empty_volume counter_json (\<lambda>w. (Inl OverflowError :: pyexc + unit, w)) =
     Some (Inl OverflowError,
           empty_volume\<lparr>files := [counter_lock \<mapsto> []], dirs := {Path ''/'' [], data_dir},
                         next_fd := 4\<rparr>)"
proof -
  let ?body = "\<lambda>w. (Inl OverflowError :: pyexc + unit, w)"
  let ?w4 = "empty_volume\<lparr>files := [counter_lock \<mapsto> []], dirs := {Path ''/'' [], data_dir},
                             fds := [3 \<mapsto> counter_lock], next_fd := 4,
                             flocks := [counter_lock \<mapsto> 3]\<rparr>"
  have b: "?body ?w4 = (Inl OverflowError, ?w4)" by simp
  from lock_released [where body = ?body, OF open_lock_empty flock_ex_empty b]
  obtain r' w' where res: "exclusive_file_lock empty_volume counter_json ?body = Some (r', w')"
    and rel: "fds w' 3 = None" "fds ?w4 3 \<noteq> None \<longrightarrow> r' = Inl OverflowError"
    by blast
  from rel(2) have "r' = Inl OverflowError" by simp
  moreover have "exclusive_file_lock empty_volume counter_json ?body
                   = Some (release ?w4 3 (Inl OverflowError))"
    by (simp add: exclusive_file_lock_def open_lock_empty flock_ex_empty)
  moreover have "snd (release ?w4 3 (Inl OverflowError :: pyexc + unit))
                   = empty_volume\<lparr>files := [counter_lock \<mapsto> []],
                       dirs := {Path ''/'' [], data_dir}, next_fd := 4\<rparr>"
    by (simp add: release_def flock_un_def close_def drop_locks_def without_holder_def empty_volume_def fun_eq_iff)
  ultimately show ?thesis using res by (metis option.inject snd_conv)
qed

section \<open>The increment\<close>

lemma read_counter_world:
  "read_counter w p = (r, w') \<Longrightarrow>
     files w' = files w \<and> dirs w' = dirs w \<and> fds w' = fds w \<and> flocks w' = flocks w"
  by (auto simp: read_counter_cases split: if_splits sum.splits)

lemma log_json_world:
  "log_json w lvl payload = Inr w' \<Longrightarrow>
     files w' = files w \<and> dirs w' = dirs w \<and> fds w' = fds w \<and> flocks w' = flocks w"
  by (auto simp: log_json_def split: if_splits)

lemma increment_Inr:
  assumes "increment p w = (Inr c, w')"
  shows "\<exists>n w1. read_counter w p = (Inr n, w1) \<and> c = n + 1
           \<and> write_counter w1 p c = (Inr (), w')"
  using assms
  by (auto simp: increment_def split: prod.splits sum.splits)

lemma exclusive_file_lock_Inr:
  assumes "exclusive_file_lock w p body = Some (Inr x, w')"
  shows "\<exists>lock_f w3 w4 w5. open_lock w p = Inr (lock_f, w3)
           \<and> flock_ex w3 lock_f = Some (Inr w4)
           \<and> body w4 = (Inr x, w5)
           \<and> release w5 lock_f (Inr x) = (Inr x, w')"
proof -
  from assms obtain lock_f w3 where ol: "open_lock w p = Inr (lock_f, w3)"
    by (auto simp: exclusive_file_lock_def split: sum.splits)
  then obtain lp where fd: "fds w3 lock_f = Some lp"
    using open_lock_Inr by fastforce
  with assms ol obtain w4 where fl: "flock_ex w3 lock_f = Some (Inr w4)"
    by (auto simp: exclusive_file_lock_def flock_ex_def release_def flock_un_def
        split: option.splits sum.splits if_splits)
  obtain r w5 where b: "body w4 = (r, w5)" by (cases "body w4")
  with assms ol fl have rel: "release w5 lock_f r = (Inr x, w')"
    by (simp add: exclusive_file_lock_def)
  then have "r = Inr x"
    by (auto simp: release_def split: sum.splits)
  with ol fl b rel show ?thesis by blast
qed

text \<open>
  Claim C2. Whenever \<^verbatim>\<open>POST /\<close> answers, the status is 200 and the counter in the body
  is the value \<^verbatim>\<open>_read_counter\<close> returned inside the critical section (in the world
  \<open>w4\<close> where the lock has just been granted) plus one; in the world the handler leaves,
  the counter file holds the complete document for that same value, and reading it
  returns that value.
\<close>

theorem increment_response:
  assumes "index cfg w POST = Some (Inr (c, status), w')"
  shows "status = 200
       \<and> (\<exists>lock_f w3 w4 n w5.
             open_lock w (Path_of (COUNTER_FILE cfg)) = Inr (lock_f, w3)
           \<and> flock_ex w3 lock_f = Some (Inr w4)
           \<and> read_counter w4 (Path_of (COUNTER_FILE cfg)) = (Inr n, w5)
           \<and> c = n + 1)
       \<and> files w' (Path_of (COUNTER_FILE cfg)) = Some (fst (json_dump_counter c))
       \<and> snd (json_dump_counter c) = None
       \<and> read_counter w' (Path_of (COUNTER_FILE cfg)) = (Inr c, w')"
proof -
  let ?p = "Path_of (COUNTER_FILE cfg)"
  from assms obtain w1 where
    lk: "exclusive_file_lock w ?p (increment ?p) = Some (Inr c, w1)"
    and lg: "log_json w1 INFO [(''event'', LStr ''increment''), (''counter'', LInt c)] = Inr w'"
    and st: "status = 200"
    by (auto simp: index_def Let_def split: option.splits sum.splits prod.splits)
  from exclusive_file_lock_Inr [OF lk] obtain lock_f w3 w4 w6 where
    ol: "open_lock w ?p = Inr (lock_f, w3)"
    and fl: "flock_ex w3 lock_f = Some (Inr w4)"
    and inc: "increment ?p w4 = (Inr c, w6)"
    and rel: "release w6 lock_f (Inr c) = (Inr c, w1)"
    by blast
  from increment_Inr [OF inc] obtain n w5 where
    rd: "read_counter w4 ?p = (Inr n, w5)" and c: "c = n + 1"
    and wr: "write_counter w5 ?p c = (Inr (), w6)"
    by blast
  from write_counter_written [OF wr] obtain doc where
    doc: "json_dump_counter c = (doc, None)" "files w6 ?p = Some doc" "?p \<notin> dirs w6"
    by blast
  from release_released [OF rel] log_json_world [OF lg] doc
  have fin: "files w' ?p = Some doc" "?p \<notin> dirs w'" by simp_all
  then have "read_counter w' ?p = (Inr c, w')"
    using doc(1) by (simp add: read_counter_cases read_try_written path_exists_def)
  with st ol fl rd c fin doc(1) show ?thesis by auto
qed

lemma default_path: "Path_of (COUNTER_FILE default_config) = counter_json"
  by (simp add: default_config_def Path_of_def counter_json_def)

lemma json_dump_counter_1: \<open>json_dump_counter 1 = (''{"counter": 1}'', None)\<close>
  by (simp add: json_dump_counter_def nat_digits.simps int_digits_str_def digit_char_def
      max_str_digits_def)

lemma increment_locked:
  \<open>increment counter_json
     (empty_volume\<lparr>files := [counter_lock \<mapsto> []], dirs := {Path ''/'' [], data_dir},
                    fds := [3 \<mapsto> counter_lock], next_fd := 4,
                    flocks := [counter_lock \<mapsto> 3]\<rparr>) =
   (Inr 1,
    empty_volume\<lparr>files := [counter_lock \<mapsto> [], counter_json \<mapsto> ''{"counter": 1}''],
                  dirs := {Path ''/'' [], data_dir},
                  fds := [3 \<mapsto> counter_lock], next_fd := 4,
                  flocks := [counter_lock \<mapsto> 3]\<rparr>)\<close>
  by (simp add: increment_def read_counter_def write_counter_def write_counter_steps_def
      world_eval json_dump_counter_1 last_writing fun_upd_twist)

lemma index_post_empty:
  \<open>index default_config empty_volume POST =
     Some (Inr (1, 200),
           empty_volume\<lparr>files := [counter_lock \<mapsto> [], counter_json \<mapsto> ''{"counter": 1}''],
                         dirs := {Path ''/'' [], data_dir}, next_fd := 4,
                         logs := [(INFO, [(''event'', LStr ''increment''), (''counter'', LInt 1),
                                          (''pid'', LInt 1), (''tid'', LInt 1)])]\<rparr>)\<close>
proof -
  let ?w4 = "empty_volume\<lparr>files := [counter_lock \<mapsto> []], dirs := {Path ''/'' [], data_dir},
                    fds := [3 \<mapsto> counter_lock], next_fd := 4,
                    flocks := [counter_lock \<mapsto> 3]\<rparr>"
  let ?w6 = \<open>empty_volume\<lparr>files := [counter_lock \<mapsto> [], counter_json \<mapsto> ''{"counter": 1}''],
                  dirs := {Path ''/'' [], data_dir},
                  fds := [3 \<mapsto> counter_lock], next_fd := 4,
                  flocks := [counter_lock \<mapsto> 3]\<rparr>\<close>
  let ?w1 = \<open>empty_volume\<lparr>files := [counter_lock \<mapsto> [], counter_json \<mapsto> ''{"counter": 1}''],
                  dirs := {Path ''/'' [], data_dir}, next_fd := 4\<rparr>\<close>
  have "exclusive_file_lock empty_volume counter_json (increment counter_json)
          = Some (release ?w6 3 (Inr 1))"
    by (simp add: exclusive_file_lock_def open_lock_empty flock_ex_empty increment_locked)
  moreover have "release ?w6 3 (Inr 1 :: pyexc + int) = (Inr 1, ?w1)"
    by (simp add: release_def flock_un_def close_def drop_locks_def without_holder_def empty_volume_def fun_eq_iff)
  ultimately have "exclusive_file_lock empty_volume counter_json (increment counter_json)
          = Some (Inr 1, ?w1)"
    by simp
  then show ?thesis
    by (simp add: index_def default_path log_json_def with_ids_def dumps_ok_def
        nat_digits.simps max_str_digits_def empty_volume_def)
qed

theorem increment_response_witness:
  \<open>index default_config empty_volume POST =
     Some (Inr (1, 200),
           empty_volume\<lparr>files := [counter_lock \<mapsto> [], counter_json \<mapsto> ''{"counter": 1}''],
                         dirs := {Path ''/'' [], data_dir}, next_fd := 4,
                         logs := [(INFO, [(''event'', LStr ''increment''), (''counter'', LInt 1),
                                          (''pid'', LInt 1), (''tid'', LInt 1)])]\<rparr>)
   \<and> fst (read_counter
        (empty_volume\<lparr>files := [counter_lock \<mapsto> [], counter_json \<mapsto> ''{"counter": 1}''],
                         dirs := {Path ''/'' [], data_dir}, next_fd := 4,
                         logs := [(INFO, [(''event'', LStr ''increment''), (''counter'', LInt 1),
                                          (''pid'', LInt 1), (''tid'', LInt 1)])]\<rparr>)
        counter_json) = Inr 1\<close>
proof -
  let ?w' = \<open>empty_volume\<lparr>files := [counter_lock \<mapsto> [], counter_json \<mapsto> ''{"counter": 1}''],
                         dirs := {Path ''/'' [], data_dir}, next_fd := 4,
                         logs := [(INFO, [(''event'', LStr ''increment''), (''counter'', LInt 1),
                                          (''pid'', LInt 1), (''tid'', LInt 1)])]\<rparr>\<close>
  from increment_response [OF index_post_empty]
  have "read_counter ?w' (Path_of (COUNTER_FILE default_config)) = (Inr 1, ?w')"
    by blast
  then have "fst (read_counter ?w' counter_json) = Inr 1"
    by (simp only: default_path fst_conv)
  with index_post_empty show ?thesis by (rule conjI)
qed

section \<open>What the file's content is read as\<close>






lemma read_try_dict:
  assumes "files w p = Some doc" "p \<notin> dirs w" "json_loads doc = Inr (PDict kvs)"
  shows "read_try w p =
           (case map_of (rev kvs) ''counter'' of None \<Rightarrow> Inr 0 | Some x \<Rightarrow> py_int x)"
  using assms
  by (simp add: read_try_def open_r_def bind_exc_def py_get_def py_int_def split: option.splits)

lemma read_counter_file:
  assumes "files w p = Some doc" "p \<notin> dirs w"
  shows "read_counter w p =
           (case read_try w p of
              Inr n \<Rightarrow> (Inr n, w)
            | Inl e \<Rightarrow> (Inr 0, w\<lparr>logs := logs w @ [(WARNING, with_ids w (read_failed p e))]\<rparr>))"
  using assms by (simp add: read_counter_cases path_exists_def)



subsection \<open>Sample documents, decoded\<close>

lemmas parse_fuel_numeral =
  parse_value.simps(2) [of "pred_numeral n", folded numeral_eq_Suc]
  parse_members.simps(2) [of "pred_numeral n", folded numeral_eq_Suc]
  parse_elements.simps(2) [of "pred_numeral n", folded numeral_eq_Suc]
  for n

lemmas json_eval =
  json_loads_def parse_fuel_numeral parse_value.simps parse_members.simps parse_elements.simps
  skip_ws_def is_ws_def starts_with_def scan_number_def cut_int_def cut_frac_def cut_exp_def
  is_digit_def digits_val_def digit_val_def max_str_digits_def unescape_def





lemma loads_neg: \<open>json_loads ''{"counter": -5}'' = Inr (PDict [(''counter'', PInt (- 5))])\<close>
  by (simp add: json_eval)



lemma loads_list: \<open>json_loads ''[1]'' = Inr (PList [PInt 1])\<close>
  by (simp add: json_eval)







lemma volume_with_file:
  "files (volume_with counter_json doc) counter_json = Some doc"
  "counter_json \<notin> dirs (volume_with counter_json doc)"
  by (simp_all add: volume_with_def empty_volume_def counter_json_def data_dir_def)





section \<open>The sign of the counter\<close>

lemma read_counter_value:
  assumes "read_counter w p = (Inr n, w1)" "n \<noteq> 0"
  shows "\<exists>doc kvs x. files w p = Some doc \<and> json_loads doc = Inr (PDict kvs)
           \<and> map_of (rev kvs) ''counter'' = Some x \<and> py_int x = Inr n"
proof -
  from assms have ex: "path_exists w p" and rt: "read_try w p = Inr n"
    by (auto simp: read_counter_cases split: if_splits sum.splits)
  from rt obtain doc where doc: "files w p = Some doc" "p \<notin> dirs w"
    by (auto simp: read_try_def open_r_def bind_exc_def split: if_splits option.splits)
  from rt doc obtain d where d: "json_loads doc = Inr d"
    by (cases "json_loads doc") (auto simp: read_try_def open_r_def bind_exc_def)
  from rt doc d obtain kvs where kvs: "d = PDict kvs"
    by (cases d) (auto simp: read_try_def open_r_def bind_exc_def py_get_def)
  from rt assms(2) read_try_dict [OF doc] d kvs
  obtain x where "map_of (rev kvs) ''counter'' = Some x" "py_int x = Inr n"
    by (cases "map_of (rev kvs) ''counter''") auto
  with doc d kvs show ?thesis by blast
qed

text \<open>
  Claim C9, as amended. Nothing in the module makes the counter non-negative; it is
  passed through. A negative value returned by \<^verbatim>\<open>_read_counter\<close> is always the
  \<^verbatim>\<open>counter\<close> field of the file itself, converted by \<^verbatim>\<open>int\<close>. And when the value read
  is not negative, the value that the increment persists and returns is positive, and is
  what the next read returns.
\<close>

theorem counter_nonneg:
  assumes "read_counter w p = (Inr n, w1)"
  shows "(n < 0 \<longrightarrow>
            (\<exists>doc kvs x. files w p = Some doc \<and> json_loads doc = Inr (PDict kvs)
               \<and> map_of (rev kvs) ''counter'' = Some x \<and> py_int x = Inr n))
       \<and> (0 \<le> n \<longrightarrow>
            (\<forall>c w'. increment p w = (Inr c, w') \<longrightarrow>
               0 < c \<and> files w' p = Some (fst (json_dump_counter c))
               \<and> read_counter w' p = (Inr c, w')))"
proof (rule conjI)
  show "n < 0 \<longrightarrow>
            (\<exists>doc kvs x. files w p = Some doc \<and> json_loads doc = Inr (PDict kvs)
               \<and> map_of (rev kvs) ''counter'' = Some x \<and> py_int x = Inr n)"
  proof
    assume "n < 0"
    then have "n \<noteq> 0" by simp
    from read_counter_value [OF assms this]
    show "\<exists>doc kvs x. files w p = Some doc \<and> json_loads doc = Inr (PDict kvs)
               \<and> map_of (rev kvs) ''counter'' = Some x \<and> py_int x = Inr n"
      by blast
  qed
  show "0 \<le> n \<longrightarrow>
            (\<forall>c w'. increment p w = (Inr c, w') \<longrightarrow>
               0 < c \<and> files w' p = Some (fst (json_dump_counter c))
               \<and> read_counter w' p = (Inr c, w'))"
  proof (intro impI allI)
    fix c w'
    assume n: "0 \<le> n" and inc: "increment p w = (Inr c, w')"
    from increment_Inr [OF inc] assms have c: "c = n + 1"
      and wr: "write_counter w1 p c = (Inr (), w')"
      by auto
    from write_counter_written [OF wr] obtain doc where
      doc: "json_dump_counter c = (doc, None)" "files w' p = Some doc" "p \<notin> dirs w'"
      by blast
    then have "read_counter w' p = (Inr c, w')"
      by (simp add: read_counter_cases read_try_written path_exists_def)
    with n c doc show "0 < c \<and> files w' p = Some (fst (json_dump_counter c))
               \<and> read_counter w' p = (Inr c, w')"
      by simp
  qed
qed

lemma increment_empty:
  \<open>increment counter_json empty_volume =
     (Inr 1, empty_volume\<lparr>files := [counter_json \<mapsto> ''{"counter": 1}''],
                           dirs := {Path ''/'' [], data_dir}\<rparr>)\<close>
  by (simp add: increment_def read_counter_def write_counter_def write_counter_steps_def
      world_eval json_dump_counter_1 last_writing insert_commute)

theorem counter_nonneg_witness:
  \<open>read_counter empty_volume counter_json = (Inr 0, empty_volume)
   \<and> increment counter_json empty_volume =
       (Inr 1, empty_volume\<lparr>files := [counter_json \<mapsto> ''{"counter": 1}''],
                             dirs := {Path ''/'' [], data_dir}\<rparr>)
   \<and> read_counter (empty_volume\<lparr>files := [counter_json \<mapsto> ''{"counter": 1}''],
                                 dirs := {Path ''/'' [], data_dir}\<rparr>) counter_json =
       (Inr 1, empty_volume\<lparr>files := [counter_json \<mapsto> ''{"counter": 1}''],
                             dirs := {Path ''/'' [], data_dir}\<rparr>)\<close>
proof -
  have r: "read_counter empty_volume counter_json = (Inr 0, empty_volume)"
    by (simp add: read_counter_def world_eval)
  have z: "0 \<le> (0 :: int)" by simp
  from counter_nonneg [OF r, THEN conjunct2, rule_format, OF z increment_empty,
      THEN conjunct2, THEN conjunct2]
  have "read_counter (empty_volume\<lparr>files := [counter_json \<mapsto> ''{\"counter\": 1}''],
                                 dirs := {Path ''/'' [], data_dir}\<rparr>) counter_json =
       (Inr 1, empty_volume\<lparr>files := [counter_json \<mapsto> ''{\"counter\": 1}''],
                             dirs := {Path ''/'' [], data_dir}\<rparr>)" .
  with r increment_empty show ?thesis by simp
qed

lemma json_dump_counter_m4: \<open>json_dump_counter (- 4) = (''{"counter": -4}'', None)\<close>
  by (simp add: json_dump_counter_def nat_digits.simps int_digits_str_def digit_char_def
      max_str_digits_def)

lemma read_negative:
  \<open>read_counter (volume_with counter_json ''{"counter": -5}'') counter_json
      = (Inr (- 5), volume_with counter_json ''{"counter": -5}'')\<close>
proof -
  have "read_try (volume_with counter_json ''{\"counter\": -5}'') counter_json = Inr (- 5)"
    using read_try_dict [OF volume_with_file loads_neg] by (simp add: py_int_def)
  then show ?thesis by (simp add: read_counter_file [OF volume_with_file])
qed

text \<open>
  The claim as stated, regardless of the file's content, fails on a file that holds a
  negative counter: it is read as \<open>-5\<close>, and the increment persists \<open>-4\<close>.
\<close>

theorem counter_negative:
  \<open>read_counter (volume_with counter_json ''{"counter": -5}'') counter_json
      = (Inr (- 5), volume_with counter_json ''{"counter": -5}'')
   \<and> increment counter_json (volume_with counter_json ''{"counter": -5}'')
      = (Inr (- 4), volume_with counter_json ''{"counter": -4}'')\<close>
proof -
  have "write_counter (volume_with counter_json ''{\"counter\": -5}'') counter_json (- 4)
          = (Inr (), volume_with counter_json ''{\"counter\": -4}'')"
    by (simp add: write_counter_def write_counter_steps_def world_eval json_dump_counter_m4
        last_writing fun_upd_twist)
  with read_negative show ?thesis by (simp add: increment_def)
qed

section \<open>No update is lost\<close>

subsection \<open>One request alone is the handler\<close>

lemma release_Inl: "\<exists>e' w'. release w h (Inl e) = (Inl e', w')"
  by (simp add: release_def split: sum.splits)

lemma run_index:
  "index cfg w POST =
     (case run 6 (Path_of (COUNTER_FILE cfg)) (Start, w) of
        (Answered c, w') \<Rightarrow> Some (Inr (c, 200), w')
      | (Failed e, w') \<Rightarrow> Some (Inl e, w')
      | _ \<Rightarrow> None)"
proof -
  let ?p = "Path_of (COUNTER_FILE cfg)"
  note defs = index_def exclusive_file_lock_def increment_def abort_def eval_nat_numeral
  show ?thesis
  proof (cases "open_lock w ?p")
    case (Inl ew)
    then show ?thesis by (cases ew) (simp add: defs)
  next
    case (Inr hw)
    obtain h w3 where hw: "hw = (h, w3)" by (cases hw)
    note ol = Inr [unfolded hw]
    show ?thesis
    proof (cases "flock_ex w3 h")
      case None
      with ol show ?thesis by (simp add: defs)
    next
      case (Some g)
      show ?thesis
      proof (cases g)
        case (Inl e)
        obtain e' w' where "release w3 h (Inl e :: pyexc + int) = (Inl e', w')"
          using release_Inl by blast
        moreover obtain e'' w'' where "release w3 h (Inl e :: pyexc + unit) = (Inl e'', w'')"
          using release_Inl by blast
        ultimately show ?thesis using ol Some Inl
          by (auto simp: defs release_def split: sum.splits)
      next
        case (Inr w4)
        note fl = Some [unfolded Inr]
        obtain r w5 where rd: "read_counter w4 ?p = (r, w5)" by (cases "read_counter w4 ?p")
        show ?thesis
        proof (cases r)
          case (Inl e)
          with ol fl rd show ?thesis
            by (auto simp: defs release_def split: sum.splits)
        next
          case (Inr n)
          note rd = rd [unfolded Inr]
          obtain r2 w6 where wr: "write_counter w5 ?p (n + 1) = (r2, w6)"
            by (cases "write_counter w5 ?p (n + 1)")
          show ?thesis
          proof (cases r2)
            case (Inl e)
            with ol fl rd wr show ?thesis
              by (auto simp: defs release_def split: sum.splits)
          next
            case (Inr u)
            note wr = wr [unfolded Inr]
            obtain r3 w7 where rl: "release w6 h (Inr (n + 1) :: pyexc + int) = (r3, w7)"
              by (cases "release w6 h (Inr (n + 1) :: pyexc + int)")
            show ?thesis
            proof (cases r3)
              case (Inl e)
              with ol fl rd wr rl show ?thesis by (simp add: defs)
            next
              case (Inr c)
              with ol fl rd wr rl show ?thesis
                by (simp add: defs split: sum.splits)
            qed
          qed
        qed
      qed
    qed
  qed
qed

subsection \<open>What a step leaves alone\<close>

lemma as_process_fields [simp]:
  "files (as_process w r) = files w" "dirs (as_process w r) = dirs w"
  "fds (as_process w r) = fds w" "next_fd (as_process w r) = next_fd w"
  "flocks (as_process w r) = flocks w"
  by (simp_all add: as_process_def)










subsection \<open>Every step keeps the invariant\<close>


subsection \<open>Runs\<close>














end
